theory Spec2Isabelle
  imports Main "HOL-Library.Product_Lexorder"
begin

section \<open>The database of the game-economy engine\<close>

text \<open>
  The engine is the set of PL/pgSQL functions \<^verbatim>\<open>award_xp\<close>, \<^verbatim>\<open>gift_booster\<close>,
  \<^verbatim>\<open>redeem_grace_pass\<close>, \<^verbatim>\<open>run_weekly_league_update\<close> and \<^verbatim>\<open>get_leaderboard\<close>
  over the tables \<^verbatim>\<open>users\<close>, \<^verbatim>\<open>xp_ledger\<close>, \<^verbatim>\<open>activities\<close>, \<^verbatim>\<open>boosters\<close>,
  \<^verbatim>\<open>offline_actions\<close> and \<^verbatim>\<open>league_snapshots\<close>, together with the client-side streak
  tracker \<^verbatim>\<open>updateStreak\<close>.

  A table is the list of its rows, in some fixed scan order. A row is a record of the columns
  that the functions read or write; the generated \<^verbatim>\<open>id\<close> columns of the tables other than
  \<^verbatim>\<open>users\<close> and the profile columns of \<^verbatim>\<open>users\<close> (email, avatar, ...) are left out.
  Columns hold values, not NULL. A UUID is an opaque identifier; a \<^verbatim>\<open>TIMESTAMPTZ\<close> is a
  number of microseconds since the epoch; a \<^verbatim>\<open>DATE\<close> is a number of days since the epoch;
  a \<^verbatim>\<open>JSONB\<close> payload that the functions only store is an opaque string.

  A function call runs in one transaction. It takes the database and returns either an
  exception (\<open>Inl\<close>; the transaction is rolled back, so no state is returned) or the new
  database with the JSON object that the function returns (\<open>Inr\<close>).
\<close>

type_synonym uuid = nat
type_synonym timestamptz = int
type_synonym date = int

record user_row =
  user_id :: uuid
  name :: string
  xp :: int
  weekly_xp :: int
  lifetime_xp :: int
  level :: int
  streak :: int
  grace_passes_used :: int
  grace_passes_available :: int
  gems :: int
  league :: int
  league_position :: int
  has_used_morning_bonus :: bool
  has_streak_bonus :: bool
  updated_at :: timestamptz

record ledger_row =
  ledger_user_id :: uuid
  action_id :: string
  amount :: int
  source :: string
  meta :: string

text \<open>
  An activity row keeps the structured \<^verbatim>\<open>meta\<close> object; the \<^verbatim>\<open>details\<close> text is a
  rendering of the same values and is left out. The author of an activity is NULL when
  \<^verbatim>\<open>auth.uid()\<close> is.
\<close>

datatype activity_meta =
    Xp_earned int string
  | Booster_gift uuid string

record activity_row =
  activity_user_id :: "uuid option"
  activity_type :: string
  activity_meta :: activity_meta

record booster_row =
  booster_user_id :: uuid
  booster_type :: string
  expires_at :: timestamptz
  is_active :: bool
  created_at :: timestamptz

record offline_action_row =
  oa_user_id :: uuid
  oa_action_id :: string
  action_type :: string
  payload :: string
  processed :: bool

record ranking =
  rk_user_id :: uuid
  rk_name :: string
  rk_weekly_xp :: int
  old_league :: int
  new_league :: int
  rk_rank :: int

record snapshot_row =
  week_start :: date
  week_end :: date
  user_rankings :: "ranking list"

record db =
  users :: "user_row list"
  xp_ledger :: "ledger_row list"
  activities :: "activity_row list"
  boosters :: "booster_row list"
  offline_actions :: "offline_action_row list"
  league_snapshots :: "snapshot_row list"

subsection \<open>Exceptions and 32-bit integers\<close>

text \<open>
  \<^verbatim>\<open>INTEGER\<close> is a signed 32-bit integer. PostgreSQL does not wrap around: an
  arithmetic result or an assignment that leaves the range raises
  \<^verbatim>\<open>numeric_value_out_of_range\<close>, which aborts the function.
\<close>

datatype pg_exception = numeric_value_out_of_range | foreign_key_violation

definition int4_ok :: "int \<Rightarrow> bool" where
  "int4_ok x \<longleftrightarrow> - 2147483648 \<le> x \<and> x \<le> 2147483647"

definition int4 :: "int \<Rightarrow> pg_exception + int" where
  "int4 x = (if int4_ok x then Inr x else Inl numeric_value_out_of_range)"

definition bind_exc :: "pg_exception + 'a \<Rightarrow> ('a \<Rightarrow> pg_exception + 'b) \<Rightarrow> pg_exception + 'b" where
  "bind_exc m f = (case m of Inl e \<Rightarrow> Inl e | Inr x \<Rightarrow> f x)"

text \<open>Division of two \<^verbatim>\<open>INTEGER\<close>s truncates toward zero (the divisors here are positive constants).\<close>

definition trunc_div :: "int \<Rightarrow> int \<Rightarrow> int" where
  "trunc_div a b = (if 0 \<le> a then a div b else - ((- a) div b))"

subsection \<open>Reading and updating \<^verbatim>\<open>users\<close>\<close>

text \<open>\<^verbatim>\<open>SELECT * INTO v_user_record FROM users WHERE id = v_user_id\<close>: the first matching row;
  no row matches a NULL \<^verbatim>\<open>auth.uid()\<close>.\<close>

definition find_user :: "uuid option \<Rightarrow> user_row list \<Rightarrow> user_row option" where
  "find_user v_user_id us =
     (case v_user_id of None \<Rightarrow> None | Some uid \<Rightarrow> find (\<lambda>u. user_id u = uid) us)"

text \<open>\<^verbatim>\<open>UPDATE users SET ... WHERE id = uid\<close>. The trigger \<^verbatim>\<open>update_users_updated_at\<close>
  stamps every updated row with \<^verbatim>\<open>NOW()\<close>.\<close>

definition update_users :: "timestamptz \<Rightarrow> uuid \<Rightarrow> (user_row \<Rightarrow> user_row) \<Rightarrow> user_row list \<Rightarrow> user_row list" where
  "update_users v_now uid f us =
     map (\<lambda>u. if user_id u = uid then (f u)\<lparr>updated_at := v_now\<rparr> else u) us"

section \<open>Progression engine: \<^verbatim>\<open>award_xp\<close>\<close>

text \<open>\<^verbatim>\<open>EXTRACT(HOUR FROM v_now AT TIME ZONE 'UTC')\<close>\<close>

definition utc_hour :: "timestamptz \<Rightarrow> int" where
  "utc_hour t = (t div 3600000000) mod 24"

text \<open>The boosters of a user that are active and not expired at \<open>v_now\<close>, and the type of
  the one that \<^verbatim>\<open>ORDER BY expires_at DESC LIMIT 1\<close> selects (PostgreSQL leaves the choice
  among equal expiry times open; here it is the first in the list).\<close>

definition live_boosters :: "uuid \<Rightarrow> timestamptz \<Rightarrow> booster_row list \<Rightarrow> booster_row list" where
  "live_boosters uid v_now bs =
     filter (\<lambda>b. booster_user_id b = uid \<and> is_active b \<and> expires_at b > v_now) bs"

definition v_booster_type :: "uuid \<Rightarrow> timestamptz \<Rightarrow> booster_row list \<Rightarrow> string option" where
  "v_booster_type uid v_now bs =
     (case sort_key (\<lambda>b. - expires_at b) (live_boosters uid v_now bs) of
        [] \<Rightarrow> None
      | b # _ \<Rightarrow> Some (booster_type b))"

text \<open>
  The three bonus steps of \<^verbatim>\<open>award_xp\<close>, in source order, on the running
  \<^verbatim>\<open>v_final_amount\<close>. \<^verbatim>\<open>FLOOR(v_final_amount * 1.5)\<close> is computed in \<^verbatim>\<open>NUMERIC\<close> and then
  assigned to the \<^verbatim>\<open>INTEGER\<close> variable.
\<close>

definition morning_applies :: "timestamptz \<Rightarrow> user_row \<Rightarrow> bool" where
  "morning_applies v_now v_user_record \<longleftrightarrow>
     utc_hour v_now \<ge> 6 \<and> utc_hour v_now < 9 \<and> \<not> has_used_morning_bonus v_user_record"

definition morning_step :: "timestamptz \<Rightarrow> user_row \<Rightarrow> int \<Rightarrow> pg_exception + int" where
  "morning_step v_now v_user_record a =
     (if morning_applies v_now v_user_record then int4 ((a * 3) div 2) else Inr a)"

definition streak_step :: "user_row \<Rightarrow> int \<Rightarrow> pg_exception + int" where
  "streak_step v_user_record a =
     (if has_streak_bonus v_user_record then int4 (a * 2) else Inr a)"

definition booster_step :: "string option \<Rightarrow> int \<Rightarrow> pg_exception + int" where
  "booster_step bt a =
     (case bt of
        None \<Rightarrow> Inr a
      | Some t \<Rightarrow> if t = ''3x'' then int4 (a * 3)
                  else if t = ''2x'' then int4 (a * 2)
                  else Inr a)"

definition final_amount :: "timestamptz \<Rightarrow> user_row \<Rightarrow> booster_row list \<Rightarrow> int \<Rightarrow> pg_exception + int" where
  "final_amount v_now v_user_record bs p_amount =
     bind_exc (morning_step v_now v_user_record p_amount) (\<lambda>a1.
     bind_exc (streak_step v_user_record a1) (\<lambda>a2.
     booster_step (v_booster_type (user_id v_user_record) v_now bs) a2))"

text \<open>The JSON object returned by \<^verbatim>\<open>award_xp\<close>.\<close>

datatype award_result =
    Already_processed
  | User_not_found
  | Awarded int int int

fun award_success :: "award_result \<Rightarrow> bool" where
  "award_success Already_processed = True"
| "award_success User_not_found = False"
| "award_success (Awarded a l g) = True"

fun xp_awarded :: "award_result \<Rightarrow> int option" where
  "xp_awarded Already_processed = Some 0"
| "xp_awarded User_not_found = None"
| "xp_awarded (Awarded a l g) = Some a"

definition ledger_has :: "string \<Rightarrow> ledger_row list \<Rightarrow> bool" where
  "ledger_has p_action_id l \<longleftrightarrow> (\<exists>e \<in> set l. action_id e = p_action_id)"

text \<open>The two \<^verbatim>\<open>UPDATE\<close>s of the flags in the first two bonus steps.\<close>

definition flag_updates :: "timestamptz \<Rightarrow> user_row \<Rightarrow> user_row list \<Rightarrow> user_row list" where
  "flag_updates v_now v_user_record us =
     (let uid = user_id v_user_record;
          us1 = (if morning_applies v_now v_user_record
                 then update_users v_now uid (\<lambda>u. u\<lparr>has_used_morning_bonus := True\<rparr>) us
                 else us)
      in if has_streak_bonus v_user_record
         then update_users v_now uid (\<lambda>u. u\<lparr>has_streak_bonus := False\<rparr>) us1
         else us1)"

text \<open>
  The writes of a fresh award: the ledger row, the \<^verbatim>\<open>UPDATE\<close> of the statistics (each sum
  is an \<^verbatim>\<open>INTEGER\<close> sum on the updated row and can overflow) and the activity row.
\<close>

definition stats_update_ok :: "user_row \<Rightarrow> int \<Rightarrow> int \<Rightarrow> bool" where
  "stats_update_ok u v_final_amount v_gems_earned \<longleftrightarrow>
     int4_ok (xp u + v_final_amount) \<and> int4_ok (weekly_xp u + v_final_amount) \<and>
     int4_ok (lifetime_xp u + v_final_amount) \<and> int4_ok (gems u + v_gems_earned)"

definition award_writes ::
  "timestamptz \<Rightarrow> user_row \<Rightarrow> int \<Rightarrow> int \<Rightarrow> int \<Rightarrow> string \<Rightarrow> string \<Rightarrow> string \<Rightarrow> db \<Rightarrow> db" where
  "award_writes v_now v_user_record v_final_amount v_new_level v_gems_earned
                p_source p_action_id p_meta d =
     d\<lparr>users := update_users v_now (user_id v_user_record)
                  (\<lambda>u. u\<lparr>xp := xp u + v_final_amount,
                          weekly_xp := weekly_xp u + v_final_amount,
                          lifetime_xp := lifetime_xp u + v_final_amount,
                          level := v_new_level,
                          gems := gems u + v_gems_earned\<rparr>)
                  (flag_updates v_now v_user_record (users d)),
       xp_ledger := xp_ledger d @
         [\<lparr>ledger_user_id = user_id v_user_record, action_id = p_action_id,
           amount = v_final_amount, source = p_source, meta = p_meta\<rparr>],
       activities := activities d @
         [\<lparr>activity_user_id = Some (user_id v_user_record),
           activity_type = ''challenge_completed'',
           activity_meta = Xp_earned v_final_amount p_source\<rparr>]\<rparr>"

text \<open>
  \<^verbatim>\<open>award_xp(p_amount, p_source, p_action_id, p_meta)\<close>, called by \<^verbatim>\<open>auth.uid() = v_user_id\<close>
  at \<^verbatim>\<open>NOW() = v_now\<close>. \<open>p_amount\<close> is an \<^verbatim>\<open>INTEGER\<close> argument.
\<close>

definition award_xp ::
  "uuid option \<Rightarrow> timestamptz \<Rightarrow> int \<Rightarrow> string \<Rightarrow> string \<Rightarrow> string \<Rightarrow> db
     \<Rightarrow> pg_exception + (db \<times> award_result)" where
  "award_xp v_user_id v_now p_amount p_source p_action_id p_meta d =
     (if ledger_has p_action_id (xp_ledger d) then Inr (d, Already_processed)
      else case find_user v_user_id (users d) of
        None \<Rightarrow> Inr (d, User_not_found)
      | Some v_user_record \<Rightarrow>
          bind_exc (final_amount v_now v_user_record (boosters d) p_amount) (\<lambda>v_final_amount.
          bind_exc (int4 (xp v_user_record + v_final_amount)) (\<lambda>total.
          let v_new_level = trunc_div total 500 + 1;
              v_gems_earned = trunc_div v_final_amount 100
          in if stats_update_ok v_user_record v_final_amount v_gems_earned
             then Inr (award_writes v_now v_user_record v_final_amount v_new_level v_gems_earned
                         p_source p_action_id p_meta d,
                       Awarded v_final_amount v_new_level v_gems_earned)
             else Inl numeric_value_out_of_range)))"

section \<open>Booster subsystem: \<^verbatim>\<open>gift_booster\<close>\<close>

text \<open>The JSON object returned by \<^verbatim>\<open>gift_booster\<close>; \<open>Gifted\<close> carries \<^verbatim>\<open>expires_at\<close>.\<close>

datatype gift_result =
    Gift_already_processed
  | Invalid_booster_type
  | Gifted timestamptz

fun gift_success :: "gift_result \<Rightarrow> bool" where
  "gift_success Gift_already_processed = True"
| "gift_success Invalid_booster_type = False"
| "gift_success (Gifted e) = True"

text \<open>Hours that a booster lasts; no duration for an unknown type.\<close>

definition v_duration :: "string \<Rightarrow> int option" where
  "v_duration p_booster_type =
     (if p_booster_type = ''2x'' then Some 2
      else if p_booster_type = ''3x'' then Some 1
      else None)"

text \<open>
  The idempotency check of \<^verbatim>\<open>gift_booster\<close> compares the action id with
  \<^verbatim>\<open>created_at::TEXT\<close>. The cast of a timestamp to text is PostgreSQL's and depends on the
  session (time zone, date style), so it is the parameter \<open>timestamptz_text\<close>.
  A new booster row takes the defaults \<^verbatim>\<open>is_active = TRUE\<close> and \<^verbatim>\<open>created_at = NOW()\<close>.
  Both inserted rows reference \<^verbatim>\<open>users(id)\<close>: a recipient without a user record, or a
  non-NULL giver without one, violates the foreign key.
\<close>

definition gift_seen :: "(timestamptz \<Rightarrow> string) \<Rightarrow> uuid \<Rightarrow> string \<Rightarrow> booster_row list \<Rightarrow> bool" where
  "gift_seen timestamptz_text p_to_user_id p_action_id bs \<longleftrightarrow>
     (\<exists>b \<in> set bs. booster_user_id b = p_to_user_id \<and> timestamptz_text (created_at b) = p_action_id)"

definition references_user :: "uuid option \<Rightarrow> user_row list \<Rightarrow> bool" where
  "references_user r us \<longleftrightarrow> (case r of None \<Rightarrow> True | Some uid \<Rightarrow> uid \<in> set (map user_id us))"

definition gift_booster ::
  "(timestamptz \<Rightarrow> string) \<Rightarrow> uuid option \<Rightarrow> timestamptz \<Rightarrow> uuid \<Rightarrow> string \<Rightarrow> string \<Rightarrow> db
     \<Rightarrow> pg_exception + (db \<times> gift_result)" where
  "gift_booster timestamptz_text v_from_user_id v_now p_to_user_id p_booster_type p_action_id d =
     (if gift_seen timestamptz_text p_to_user_id p_action_id (boosters d)
      then Inr (d, Gift_already_processed)
      else case v_duration p_booster_type of
        None \<Rightarrow> Inr (d, Invalid_booster_type)
      | Some h \<Rightarrow>
          let v_expires_at = v_now + h * 3600000000 in
          if \<not> references_user (Some p_to_user_id) (users d) then Inl foreign_key_violation
          else if \<not> references_user v_from_user_id (users d) then Inl foreign_key_violation
          else Inr (d\<lparr>boosters := boosters d @
                        [\<lparr>booster_user_id = p_to_user_id, booster_type = p_booster_type,
                          expires_at = v_expires_at, is_active = True, created_at = v_now\<rparr>],
                      activities := activities d @
                        [\<lparr>activity_user_id = v_from_user_id, activity_type = ''booster_gifted'',
                          activity_meta = Booster_gift p_to_user_id p_booster_type\<rparr>]\<rparr>,
                    Gifted v_expires_at))"

section \<open>Streak tracker: \<^verbatim>\<open>redeem_grace_pass\<close>\<close>

text \<open>The JSON object returned by \<^verbatim>\<open>redeem_grace_pass\<close>; \<open>Redeemed\<close> carries
  \<^verbatim>\<open>grace_passes_remaining\<close>.\<close>

datatype grace_result =
    Grace_already_processed
  | Grace_user_not_found
  | No_grace_passes_available
  | Redeemed int

fun grace_success :: "grace_result \<Rightarrow> bool" where
  "grace_success Grace_already_processed = True"
| "grace_success Grace_user_not_found = False"
| "grace_success No_grace_passes_available = False"
| "grace_success (Redeemed n) = True"

definition action_processed :: "string \<Rightarrow> offline_action_row list \<Rightarrow> bool" where
  "action_processed p_action_id oas \<longleftrightarrow>
     (\<exists>a \<in> set oas. oa_action_id a = p_action_id \<and> processed a)"

text \<open>\<^verbatim>\<open>INSERT ... ON CONFLICT (action_id) DO UPDATE SET processed = TRUE\<close>\<close>

definition mark_processed :: "uuid \<Rightarrow> string \<Rightarrow> offline_action_row list \<Rightarrow> offline_action_row list" where
  "mark_processed uid p_action_id oas =
     (if \<exists>a \<in> set oas. oa_action_id a = p_action_id
      then map (\<lambda>a. if oa_action_id a = p_action_id then a\<lparr>processed := True\<rparr> else a) oas
      else oas @ [\<lparr>oa_user_id = uid, oa_action_id = p_action_id,
                   action_type = ''redeem_grace_pass'', payload = ''{}'', processed = True\<rparr>])"

text \<open>
  \<^verbatim>\<open>redeem_grace_pass(p_action_id)\<close>, called by \<^verbatim>\<open>auth.uid() = v_user_id\<close> at
  \<^verbatim>\<open>NOW() = v_now\<close>. The two counters of the \<^verbatim>\<open>UPDATE\<close> are \<^verbatim>\<open>INTEGER\<close> sums.
\<close>

definition redeem_grace_pass ::
  "uuid option \<Rightarrow> timestamptz \<Rightarrow> string \<Rightarrow> db \<Rightarrow> pg_exception + (db \<times> grace_result)" where
  "redeem_grace_pass v_user_id v_now p_action_id d =
     (if action_processed p_action_id (offline_actions d) then Inr (d, Grace_already_processed)
      else case find_user v_user_id (users d) of
        None \<Rightarrow> Inr (d, Grace_user_not_found)
      | Some v_user_record \<Rightarrow>
          if grace_passes_available v_user_record \<le> 0 then Inr (d, No_grace_passes_available)
          else if \<not> (int4_ok (grace_passes_used v_user_record + 1) \<and>
                      int4_ok (grace_passes_available v_user_record - 1))
          then Inl numeric_value_out_of_range
          else
            Inr (d\<lparr>users := update_users v_now (user_id v_user_record)
                               (\<lambda>u. u\<lparr>grace_passes_used := grace_passes_used u + 1,
                                       grace_passes_available := grace_passes_available u - 1,
                                       streak := (if streak u > 0 then streak u else 1)\<rparr>)
                               (users d),
                    offline_actions :=
                      mark_processed (user_id v_user_record) p_action_id (offline_actions d)\<rparr>,
                 Redeemed (grace_passes_available v_user_record - 1)))"

section \<open>League ranking engine\<close>

subsection \<open>\<^verbatim>\<open>run_weekly_league_update\<close>\<close>

text \<open>The JSON object \<^verbatim>\<open>v_league_sizes\<close>; a key that is not there reads as NULL.\<close>

definition v_league_sizes :: "int \<Rightarrow> int option" where
  "v_league_sizes = map_of [(1, 50), (2, 30), (3, 20), (4, 10)]"

text \<open>
  The league that the loop body assigns to the member at position \<open>v_league_count\<close> of league
  \<open>v_current_league\<close> with this week's XP \<open>w\<close>: promotion first, relegation only otherwise.
  A comparison with NULL is not true.
\<close>

definition v_new_league :: "int \<Rightarrow> int \<Rightarrow> int \<Rightarrow> int" where
  "v_new_league v_current_league v_league_count w =
     (if v_current_league < 4 \<and> v_league_count \<le> 3 \<and> w \<ge> 500 then v_current_league + 1
      else if v_current_league > 1 \<and>
              (case v_league_sizes v_current_league of
                 None \<Rightarrow> False
               | Some s \<Rightarrow> v_league_count > s - 5)
           then v_current_league - 1
      else v_current_league)"

text \<open>
  \<^verbatim>\<open>SELECT ... FROM users WHERE league = v_current_league ORDER BY weekly_xp DESC, xp DESC\<close>.
  The query of the inner loop is evaluated when the loop starts, on the table as the
  previous iterations of the outer loop left it. PostgreSQL leaves the order of rows that
  agree on both sort columns open; here they come in the order of the list, so a statement
  about the ranking is a statement about the code only where no such tie decides it.
\<close>

definition league_key :: "user_row \<Rightarrow> int \<times> int" where
  "league_key u = (- weekly_xp u, - xp u)"

definition league_members :: "int \<Rightarrow> user_row list \<Rightarrow> user_row list" where
  "league_members v_current_league us =
     sort_key league_key (filter (\<lambda>u. league u = v_current_league) us)"

text \<open>
  The inner loop over the selected rows. It carries the table, the rankings collected so far,
  the global \<^verbatim>\<open>v_rank\<close> and the position \<^verbatim>\<open>v_league_count\<close> within the league. The two
  counters are bounded by the number of rows processed and are not checked for overflow.
\<close>

fun league_walk ::
  "timestamptz \<Rightarrow> int \<Rightarrow> user_row list \<Rightarrow> int \<Rightarrow> user_row list \<times> ranking list \<times> int
     \<Rightarrow> user_row list \<times> ranking list \<times> int" where
  "league_walk v_now v_current_league [] v_league_count (us, v_rankings, v_rank) =
     (us, v_rankings, v_rank)"
| "league_walk v_now v_current_league (v_user_record # rest) v_league_count (us, v_rankings, v_rank) =
     (let c = v_league_count + 1;
          nl = v_new_league v_current_league c (weekly_xp v_user_record);
          us' = update_users v_now (user_id v_user_record)
                  (\<lambda>u. u\<lparr>league := nl, league_position := v_rank, weekly_xp := 0,
                          has_used_morning_bonus := False\<rparr>) us;
          v_rankings' = v_rankings @
                  [\<lparr>rk_user_id = user_id v_user_record, rk_name = name v_user_record,
                    rk_weekly_xp = weekly_xp v_user_record, old_league = v_current_league,
                    new_league = nl, rk_rank = v_rank\<rparr>]
      in league_walk v_now v_current_league rest c (us', v_rankings', v_rank + 1))"

definition process_league ::
  "timestamptz \<Rightarrow> user_row list \<times> ranking list \<times> int \<Rightarrow> int \<Rightarrow> user_row list \<times> ranking list \<times> int" where
  "process_league v_now s v_current_league =
     league_walk v_now v_current_league (league_members v_current_league (fst s)) 0 s"

text \<open>\<^verbatim>\<open>DATE_TRUNC('week', CURRENT_DATE - INTERVAL '1 week')::DATE\<close>: the Monday of the week before
  the current one (day 0 of the epoch is a Thursday).\<close>

definition v_week_start :: "date \<Rightarrow> date" where
  "v_week_start current_date = (current_date - 7) - ((current_date - 7 + 3) mod 7)"

record league_update_result =
  lur_success :: bool
  lur_week_start :: date
  lur_week_end :: date
  users_processed :: nat
  rankings :: "ranking list"

definition run_weekly_league_update :: "timestamptz \<Rightarrow> date \<Rightarrow> db \<Rightarrow> db \<times> league_update_result" where
  "run_weekly_league_update v_now current_date d =
     (case foldl (process_league v_now) (users d, [], 1) [4, 3, 2, 1] of
        (us, v_rankings, v_rank) \<Rightarrow>
          let ws = v_week_start current_date; we = ws + 6 in
          (d\<lparr>users := us,
             league_snapshots := league_snapshots d @
               [\<lparr>week_start = ws, week_end = we, user_rankings = v_rankings\<rparr>]\<rparr>,
           \<lparr>lur_success = True, lur_week_start = ws, lur_week_end = we,
            users_processed = length v_rankings, rankings = v_rankings\<rparr>))"

subsection \<open>\<^verbatim>\<open>get_leaderboard\<close>\<close>

record leaderboard_row =
  lb_user_id :: uuid
  lb_name :: string
  lb_xp :: int
  lb_weekly_xp :: int
  lb_league :: int
  lb_league_position :: int
  lb_rank :: int

definition weekly_key :: "user_row \<Rightarrow> int \<times> int \<times> int" where
  "weekly_key u = (- league u, - weekly_xp u, - xp u)"

definition lifetime_key :: "user_row \<Rightarrow> int \<times> int" where
  "lifetime_key u = (- league u, - lifetime_xp u)"

definition leaderboard_row_of :: "nat \<times> user_row \<Rightarrow> leaderboard_row" where
  "leaderboard_row_of p =
     (case p of (n, u) \<Rightarrow>
        \<lparr>lb_user_id = user_id u, lb_name = name u, lb_xp = xp u, lb_weekly_xp = weekly_xp u,
         lb_league = league u, lb_league_position = league_position u, lb_rank = int n\<rparr>)"

text \<open>
  The rows that pass the optional league filter, in the order of the \<^verbatim>\<open>ORDER BY\<close> clause
  of the chosen branch (PostgreSQL leaves the order of rows that agree on all sort columns
  open; here they come in the order of the list), each with its
  \<^verbatim>\<open>ROW_NUMBER()\<close> (from 1) over the same order.
\<close>

definition ordered_users :: "string \<Rightarrow> user_row list \<Rightarrow> user_row list" where
  "ordered_users p_timeframe us =
     (if p_timeframe = ''weekly'' then sort_key weekly_key us else sort_key lifetime_key us)"

definition get_leaderboard :: "int option \<Rightarrow> string \<Rightarrow> db \<Rightarrow> leaderboard_row list" where
  "get_leaderboard p_league p_timeframe d =
     map leaderboard_row_of
       (enumerate 1
          (ordered_users p_timeframe
             (filter (\<lambda>u. case p_league of None \<Rightarrow> True | Some l \<Rightarrow> league u = l) (users d))))"

section \<open>Client-side streak tracker: \<^verbatim>\<open>updateStreak\<close>\<close>


subsection \<open>The implementation of \<^verbatim>\<open>services/bibleApi.ts\<close>\<close>







subsection \<open>The implementation of \<^verbatim>\<open>services/userService.ts\<close>\<close>


section \<open>In-league rank and the effect of the passes on one row\<close>






text \<open>
  What the inner loop over the selected rows \<open>ms\<close> does to one row \<open>u\<close> of \<^verbatim>\<open>users\<close>: every
  selected row with the id of \<open>u\<close> rewrites it. \<open>league_step_row\<close> is the effect of the pass over
  league \<open>l\<close> on a row of the table \<open>us\<close>.
\<close>

fun walk_row :: "timestamptz \<Rightarrow> int \<Rightarrow> user_row list \<Rightarrow> int \<Rightarrow> int \<Rightarrow> user_row \<Rightarrow> user_row" where
  "walk_row v_now l [] c r u = u"
| "walk_row v_now l (m # ms) c r u =
     walk_row v_now l ms (c + 1) (r + 1)
       (if user_id u = user_id m
        then u\<lparr>league := v_new_league l (c + 1) (weekly_xp m), league_position := r,
               weekly_xp := 0, has_used_morning_bonus := False, updated_at := v_now\<rparr>
        else u)"

definition league_step_row :: "timestamptz \<Rightarrow> int \<Rightarrow> user_row list \<Rightarrow> int \<Rightarrow> user_row \<Rightarrow> user_row" where
  "league_step_row v_now l us r = walk_row v_now l (league_members l us) 0 r"


section \<open>Example databases\<close>

text \<open>
  \<open>new_user i l w x\<close> is the row that \<^verbatim>\<open>INSERT INTO users (id, league, weekly_xp, xp)\<close>
  creates, the other columns at the defaults of the schema.
\<close>

definition new_user :: "uuid \<Rightarrow> int \<Rightarrow> int \<Rightarrow> int \<Rightarrow> user_row" where
  "new_user i l w x =
     \<lparr>user_id = i, name = ''Test User'', xp = x, weekly_xp = w, lifetime_xp = 0, level = 1,
      streak = 0, grace_passes_used = 0, grace_passes_available = 1, gems = 50, league = l,
      league_position = 0, has_used_morning_bonus = False, has_streak_bonus = False,
      updated_at = 0\<rparr>"

definition db_of_users :: "user_row list \<Rightarrow> db" where
  "db_of_users us =
     \<lparr>users = us, xp_ledger = [], activities = [], boosters = [], offline_actions = [],
      league_snapshots = []\<rparr>"





definition test_db :: db where
  "test_db = db_of_users [new_user 1 1 0 100]"

definition test_db_penalised :: db where
  "test_db_penalised = test_db
     \<lparr>users := [(new_user 1 1 0 100)
                   \<lparr>xp := 50, weekly_xp := - 50, lifetime_xp := - 50,
                    updated_at := 43200000000\<rparr>],
      xp_ledger := [\<lparr>ledger_user_id = 1, action_id = ''a1'', amount = - 50,
                      source = ''penalty'', meta = ''{}''\<rparr>],
      activities := [\<lparr>activity_user_id = Some 1, activity_type = ''challenge_completed'',
                       activity_meta = Xp_earned (- 50) ''penalty''\<rparr>]\<rparr>"

definition test_db_awarded :: db where
  "test_db_awarded = test_db
     \<lparr>users := [(new_user 1 1 0 100)
                   \<lparr>xp := 150, weekly_xp := 50, lifetime_xp := 50,
                    updated_at := 43200000000\<rparr>],
      xp_ledger := [\<lparr>ledger_user_id = 1, action_id = ''a1'', amount = 50,
                      source = ''test_challenge'', meta = ''{}''\<rparr>],
      activities := [\<lparr>activity_user_id = Some 1, activity_type = ''challenge_completed'',
                       activity_meta = Xp_earned 50 ''test_challenge''\<rparr>]\<rparr>"

definition grace_db :: db where
  "grace_db = db_of_users [(new_user 1 1 0 0)\<lparr>grace_passes_available := 2\<rparr>]"

definition grace_db_redeemed :: db where
  "grace_db_redeemed = grace_db
     \<lparr>users := [(new_user 1 1 0 0)
                   \<lparr>grace_passes_available := 1, grace_passes_used := 1, streak := 1,
                    updated_at := 43200000000\<rparr>],
      offline_actions := [\<lparr>oa_user_id = 1, oa_action_id = ''tok1'',
                            action_type = ''redeem_grace_pass'', payload = ''{}'',
                            processed = True\<rparr>]\<rparr>"

definition no_pass_db :: db where
  "no_pass_db = db_of_users [(new_user 2 1 0 0)\<lparr>grace_passes_available := 0\<rparr>]"




text \<open>The text of the two instants used below, as a session in UTC prints them.\<close>

definition example_text :: "timestamptz \<Rightarrow> string" where
  "example_text t =
     (if t = 43200000000 then ''1970-01-01 12:00:00+00''
      else if t = 50400000000 then ''1970-01-01 14:00:00+00''
      else [])"

definition gift_db :: db where
  "gift_db = db_of_users [new_user 1 1 0 0, new_user 2 1 0 0]"

definition board_db :: db where
  "board_db = db_of_users [new_user 1 1 800 1000, new_user 2 2 600 2000,
                           new_user 3 3 400 3000, new_user 4 4 200 5000]"


text \<open>Six Diamond members with weekly XP 600 down to 100 and fifteen Gold members with weekly
  XP 393 down to 379.\<close>

definition cascade_db :: db where
  "cascade_db = db_of_users
     (map (\<lambda>i. new_user i 4 (700 - int i * 100) 5000) [1..<7] @
      map (\<lambda>i. new_user i 3 (400 - int i) 3000) [7..<22])"

section \<open>Auxiliary facts\<close>

lemma bind_exc_Inr [simp]: "bind_exc (Inr x) f = f x"
  by (simp add: bind_exc_def)

lemma bind_exc_Inl [simp]: "bind_exc (Inl e) f = Inl e"
  by (simp add: bind_exc_def)

lemma bind_exc_eq_Inr:
  "bind_exc m f = Inr y \<longleftrightarrow> (\<exists>x. m = Inr x \<and> f x = Inr y)"
  by (cases m) simp_all

lemma int4_eq_Inr: "int4 x = Inr y \<longleftrightarrow> int4_ok x \<and> y = x"
  by (auto simp: int4_def)

lemma int4_in_range [simp]: "int4_ok x \<Longrightarrow> int4 x = Inr x"
  by (simp add: int4_def)

lemma find_user_Some_id:
  "find_user v_user_id us = Some u \<Longrightarrow> v_user_id = Some (user_id u) \<and> u \<in> set us"
  by (auto simp: find_user_def find_Some_iff split: option.splits)

lemma find_user_update_users:
  assumes "find_user v_user_id us = Some u" and "\<And>x. user_id (f x) = user_id x"
  shows "find_user v_user_id (update_users v_now (user_id u) f us) = Some ((f u)\<lparr>updated_at := v_now\<rparr>)"
proof -
  obtain uid where uid: "v_user_id = Some uid" "uid = user_id u"
    using find_user_Some_id [OF assms(1)] by blast
  have "find (\<lambda>x. user_id x = uid) us = Some u \<Longrightarrow>
        find (\<lambda>x. user_id x = uid) (update_users v_now uid f us) = Some ((f u)\<lparr>updated_at := v_now\<rparr>)"
    by (induction us) (auto simp: update_users_def assms(2))
  with assms(1) uid show ?thesis by (simp add: find_user_def)
qed

section \<open>Properties of \<^verbatim>\<open>award_xp\<close>\<close>

lemma sort_key_hd_in_set:
  "sort_key k xs = y # ys \<Longrightarrow> y \<in> set xs"
  by (metis list.set_intros(1) set_sort)



lemma award_xp_Inr_cases:
  assumes "award_xp v_user_id v_now a src aid m d = Inr (d', r)"
  obtains (replay) "ledger_has aid (xp_ledger d)" "d' = d" "r = Already_processed"
        | (no_user) "\<not> ledger_has aid (xp_ledger d)" "find_user v_user_id (users d) = None"
                    "d' = d" "r = User_not_found"
        | (fresh) u f where "\<not> ledger_has aid (xp_ledger d)"
                    "find_user v_user_id (users d) = Some u"
                    "final_amount v_now u (boosters d) a = Inr f"
                    "stats_update_ok u f (trunc_div f 100)"
                    "d' = award_writes v_now u f (trunc_div (xp u + f) 500 + 1) (trunc_div f 100) src aid m d"
                    "r = Awarded f (trunc_div (xp u + f) 500 + 1) (trunc_div f 100)"
  using assms
  by (auto simp: award_xp_def bind_exc_eq_Inr int4_eq_Inr Let_def
           split: if_splits option.splits)


lemma flag_updates_find:
  assumes "find_user v_user_id us = Some u"
  shows "\<exists>u'. find_user v_user_id (flag_updates v_now u us) = Some u' \<and> user_id u' = user_id u
           \<and> xp u' = xp u \<and> weekly_xp u' = weekly_xp u \<and> lifetime_xp u' = lifetime_xp u
           \<and> gems u' = gems u \<and> level u' = level u
           \<and> has_used_morning_bonus u' = (morning_applies v_now u \<or> has_used_morning_bonus u)
           \<and> has_streak_bonus u' = False"
proof -
  define us1 where "us1 = (if morning_applies v_now u
              then update_users v_now (user_id u) (\<lambda>u. u\<lparr>has_used_morning_bonus := True\<rparr>) us else us)"
  define u1 where "u1 = (if morning_applies v_now u
              then u\<lparr>has_used_morning_bonus := True, updated_at := v_now\<rparr> else u)"
  have f1: "find_user v_user_id us1 = Some u1"
    using find_user_update_users [OF assms, of "\<lambda>u. u\<lparr>has_used_morning_bonus := True\<rparr>" v_now] assms
    by (simp add: us1_def u1_def)
  have id1: "user_id u1 = user_id u" by (simp add: u1_def)
  have fu: "flag_updates v_now u us =
              (if has_streak_bonus u
               then update_users v_now (user_id u1) (\<lambda>u. u\<lparr>has_streak_bonus := False\<rparr>) us1
               else us1)"
    by (simp add: flag_updates_def Let_def us1_def id1)
  show ?thesis
  proof (cases "has_streak_bonus u")
    case True
    have "find_user v_user_id (flag_updates v_now u us)
            = Some (u1\<lparr>has_streak_bonus := False, updated_at := v_now\<rparr>)"
      using find_user_update_users [OF f1, of "\<lambda>u. u\<lparr>has_streak_bonus := False\<rparr>" v_now] True
      by (simp add: fu)
    then show ?thesis by (simp add: u1_def)
  next
    case False
    with f1 have "find_user v_user_id (flag_updates v_now u us) = Some u1" by (simp add: fu)
    with False show ?thesis by (simp add: u1_def)
  qed
qed

lemma award_writes_find:
  assumes "find_user v_user_id (users d) = Some u"
  shows "\<exists>u'. find_user v_user_id (users (award_writes v_now u f l g src aid m d)) = Some u'
           \<and> user_id u' = user_id u
           \<and> xp u' = xp u + f \<and> weekly_xp u' = weekly_xp u + f \<and> lifetime_xp u' = lifetime_xp u + f
           \<and> gems u' = gems u + g \<and> level u' = l
           \<and> has_used_morning_bonus u' = (morning_applies v_now u \<or> has_used_morning_bonus u)
           \<and> has_streak_bonus u' = False"
proof -
  obtain u1 where u1: "find_user v_user_id (flag_updates v_now u (users d)) = Some u1"
      "user_id u1 = user_id u" "xp u1 = xp u" "weekly_xp u1 = weekly_xp u"
      "lifetime_xp u1 = lifetime_xp u" "gems u1 = gems u"
      "has_used_morning_bonus u1 = (morning_applies v_now u \<or> has_used_morning_bonus u)"
      "has_streak_bonus u1 = False"
    using flag_updates_find [OF assms, of v_now] by blast
  let ?f = "\<lambda>u. u\<lparr>xp := xp u + f, weekly_xp := weekly_xp u + f, lifetime_xp := lifetime_xp u + f,
                  level := l, gems := gems u + g\<rparr>"
  have "find_user v_user_id (update_users v_now (user_id u1) ?f (flag_updates v_now u (users d)))
          = Some ((?f u1)\<lparr>updated_at := v_now\<rparr>)"
    using find_user_update_users [OF u1(1), of ?f v_now] by simp
  with u1 show ?thesis by (simp add: award_writes_def)
qed

lemma final_amount_negative:
  assumes "a < 0" "final_amount v_now u bs a = Inr f"
  shows "f < 0"
proof -
  obtain a1 a2 where s: "morning_step v_now u a = Inr a1" "streak_step u a1 = Inr a2"
      "booster_step (v_booster_type (user_id u) v_now bs) a2 = Inr f"
    using assms(2) by (auto simp: final_amount_def bind_exc_eq_Inr)
  have "a1 < 0" using s(1) assms(1)
    by (auto simp: morning_step_def int4_eq_Inr split: if_splits)
  then have "a2 < 0" using s(2)
    by (auto simp: streak_step_def int4_eq_Inr split: if_splits)
  then show ?thesis using s(3)
    by (auto simp: booster_step_def int4_eq_Inr split: if_splits option.splits)
qed





lemma test_award_eval:
  "award_xp (Some 1) 43200000000 50 ''test_challenge'' ''a1'' ''{}'' test_db =
     Inr (test_db_awarded, Awarded 50 1 0)"
  by (simp add: award_xp_def test_db_def test_db_awarded_def db_of_users_def new_user_def
        ledger_has_def
        find_user_def final_amount_def morning_step_def morning_applies_def utc_hour_def
        streak_step_def booster_step_def v_booster_type_def live_boosters_def int4_def
        int4_ok_def bind_exc_def trunc_div_def stats_update_ok_def award_writes_def
        flag_updates_def update_users_def)

lemma penalty_award_eval:
  "award_xp (Some 1) 43200000000 (- 50) ''penalty'' ''a1'' ''{}'' test_db =
     Inr (test_db_penalised, Awarded (- 50) 1 0)"
  by (simp add: award_xp_def test_db_def test_db_penalised_def db_of_users_def new_user_def
        ledger_has_def
        find_user_def final_amount_def morning_step_def morning_applies_def utc_hour_def
        streak_step_def booster_step_def v_booster_type_def live_boosters_def int4_def
        int4_ok_def bind_exc_def trunc_div_def stats_update_ok_def award_writes_def
        flag_updates_def update_users_def)

text \<open>
  Claim C6, as stated, fails: \<^verbatim>\<open>award_xp\<close> has no check of the sign of \<open>p_amount\<close>.
  At noon, a penalty of -50 for a user with 100 XP and no bonus succeeds, writes a ledger row
  of -50 and lowers the user's XP to 50.
\<close>

theorem award_xp_negative_amount_counterexample:
  "award_xp (Some 1) 43200000000 (- 50) ''penalty'' ''a1'' ''{}'' test_db =
     Inr (test_db_penalised, Awarded (- 50) 1 0)
   \<and> award_success (Awarded (- 50) 1 0)
   \<and> xp_ledger test_db = []
   \<and> map amount (xp_ledger test_db_penalised) = [- 50]
   \<and> map xp (users test_db) = [100]
   \<and> map xp (users test_db_penalised) = [50]"
  using penalty_award_eval
  by (simp add: test_db_def test_db_penalised_def db_of_users_def new_user_def)

text \<open>
  Claim C6, amended. A negative base amount is processed like any other amount: for a user with
  a record and a new action id, a call that returns (no 32-bit overflow) reports success with a
  negative final amount, appends the ledger row with that amount and adds it to \<^verbatim>\<open>xp\<close>,
  \<^verbatim>\<open>weekly_xp\<close> and \<^verbatim>\<open>lifetime_xp\<close>.
\<close>

theorem award_xp_negative_amount_processed:
  assumes "p_amount < 0" and "\<not> ledger_has aid (xp_ledger d)"
      and "find_user v_user_id (users d) = Some u"
      and "award_xp v_user_id v_now p_amount src aid m d = Inr (d', r)"
  shows "\<exists>f l g u'. r = Awarded f l g \<and> f < 0
           \<and> xp_ledger d' = xp_ledger d @
                [\<lparr>ledger_user_id = user_id u, action_id = aid, amount = f,
                  source = src, meta = m\<rparr>]
           \<and> find_user v_user_id (users d') = Some u'
           \<and> xp u' = xp u + f \<and> weekly_xp u' = weekly_xp u + f
           \<and> lifetime_xp u' = lifetime_xp u + f"
  using assms(4)
proof (cases rule: award_xp_Inr_cases)
  case replay
  with assms(2) show ?thesis by simp
next
  case no_user
  with assms(3) show ?thesis by simp
next
  case (fresh u0 f)
  with assms(3) have [simp]: "u0 = u" by simp
  have neg: "f < 0" using assms(1) fresh(3) by (simp add: final_amount_negative)
  obtain u' where u': "find_user v_user_id (users d') = Some u'"
      "xp u' = xp u + f" "weekly_xp u' = weekly_xp u + f" "lifetime_xp u' = lifetime_xp u + f"
    using award_writes_find [OF assms(3), of v_now f "trunc_div (xp u + f) 500 + 1"
                               "trunc_div f 100" src aid m] fresh(5)
    by auto
  have "xp_ledger d' = xp_ledger d @
          [\<lparr>ledger_user_id = user_id u, action_id = aid, amount = f, source = src, meta = m\<rparr>]"
    using fresh(5) by (simp add: award_writes_def)
  with neg u' fresh(6) show ?thesis by blast
qed

theorem award_xp_negative_amount_processed_witness:
  "(- 50 :: int) < 0 \<and> \<not> ledger_has ''a1'' (xp_ledger test_db)
   \<and> find_user (Some 1) (users test_db) = Some (new_user 1 1 0 100)
   \<and> (\<exists>f l g u'. Awarded (- 50) 1 0 = Awarded f l g \<and> f < 0
           \<and> xp_ledger test_db_penalised = xp_ledger test_db @
                [\<lparr>ledger_user_id = 1, action_id = ''a1'', amount = f,
                  source = ''penalty'', meta = ''{}''\<rparr>]
           \<and> find_user (Some 1) (users test_db_penalised) = Some u'
           \<and> xp u' = 100 + f \<and> weekly_xp u' = 0 + f \<and> lifetime_xp u' = 0 + f)"
proof -
  have h1: "(- 50 :: int) < 0" by simp
  have h2: "\<not> ledger_has ''a1'' (xp_ledger test_db)"
    by (simp add: ledger_has_def test_db_def db_of_users_def)
  have h3: "find_user (Some 1) (users test_db) = Some (new_user 1 1 0 100)"
    by (simp add: find_user_def test_db_def db_of_users_def new_user_def)
  from award_xp_negative_amount_processed [OF h1 h2 h3 penalty_award_eval] h1 h2 h3
  show ?thesis by (simp add: new_user_def)
qed

lemma unique_key_count:
  assumes "distinct (map k xs)" and "\<exists>e \<in> set xs. k e = a"
  shows "length (filter (\<lambda>e. k e = a) xs) = 1"
  using assms
proof (induction xs)
  case Nil
  then show ?case by simp
next
  case (Cons x xs)
  show ?case
  proof (cases "k x = a")
    case True
    from Cons.prems(1) have "k x \<notin> k ` set xs" by simp
    with True have "\<forall>e \<in> set xs. k e \<noteq> a" by blast
    then have "filter (\<lambda>e. k e = a) xs = []"
      by (simp add: filter_empty_conv)
    with True show ?thesis by simp
  next
    case False
    with Cons show ?thesis by auto
  qed
qed

text \<open>
  Claim C1. Let the action ids of the ledger be unique (the \<^verbatim>\<open>UNIQUE\<close> constraint) and let
  a call of \<^verbatim>\<open>award_xp\<close> report success. Then the ledger holds exactly one row with this
  action id, and a second call with the same arguments, at any later time, leaves the database
  as the first call left it and reports success, "already processed", with zero XP awarded.
\<close>

theorem award_xp_idempotent:
  assumes "distinct (map action_id (xp_ledger d))"
      and "award_xp v_user_id v_now p_amount src aid m d = Inr (d1, r1)"
      and "award_success r1"
  shows "length (filter (\<lambda>e. action_id e = aid) (xp_ledger d1)) = 1
       \<and> award_xp v_user_id v_now' p_amount src aid m d1 = Inr (d1, Already_processed)
       \<and> award_success Already_processed \<and> xp_awarded Already_processed = Some 0"
  using assms(2)
proof (cases rule: award_xp_Inr_cases)
  case replay
  have "length (filter (\<lambda>e. action_id e = aid) (xp_ledger d)) = 1"
    using assms(1) replay(1) unfolding ledger_has_def by (rule unique_key_count)
  with replay show ?thesis by (simp add: award_xp_def)
next
  case no_user
  with assms(3) show ?thesis by simp
next
  case (fresh u f)
  have l1: "xp_ledger d1 = xp_ledger d @
          [\<lparr>ledger_user_id = user_id u, action_id = aid, amount = f, source = src, meta = m\<rparr>]"
    using fresh(5) by (simp add: award_writes_def)
  have "filter (\<lambda>e. action_id e = aid) (xp_ledger d) = []"
    using fresh(1) by (auto simp: ledger_has_def filter_empty_conv)
  then have c: "length (filter (\<lambda>e. action_id e = aid) (xp_ledger d1)) = 1"
    by (simp add: l1)
  have "ledger_has aid (xp_ledger d1)" by (simp add: l1 ledger_has_def)
  then have "award_xp v_user_id v_now' p_amount src aid m d1 = Inr (d1, Already_processed)"
    by (simp add: award_xp_def)
  with c show ?thesis by simp
qed

theorem award_xp_idempotent_witness:
  "distinct (map action_id (xp_ledger test_db))
   \<and> award_xp (Some 1) 43200000000 50 ''test_challenge'' ''a1'' ''{}'' test_db
       = Inr (test_db_awarded, Awarded 50 1 0)
   \<and> award_success (Awarded 50 1 0)
   \<and> length (filter (\<lambda>e. action_id e = ''a1'') (xp_ledger test_db_awarded)) = 1
   \<and> award_xp (Some 1) 50400000000 50 ''test_challenge'' ''a1'' ''{}'' test_db_awarded
       = Inr (test_db_awarded, Already_processed)"
proof -
  have h1: "distinct (map action_id (xp_ledger test_db))"
    by (simp add: test_db_def db_of_users_def)
  have h3: "award_success (Awarded 50 1 0)" by simp
  from award_xp_idempotent [OF h1 test_award_eval h3, of 50400000000] h1 test_award_eval
  show ?thesis by simp
qed

text \<open>
  Claim C10. When the action id is already in the ledger, \<^verbatim>\<open>award_xp\<close> returns success
  with zero XP awarded and writes nothing, whoever calls it: the idempotency check comes
  before the lookup of the user, so a replay is never answered with "User not found", also
  for a caller without a user record.
\<close>

theorem award_xp_replay_before_user_check:
  assumes "ledger_has p_action_id (xp_ledger d)"
  shows "award_xp v_user_id v_now p_amount p_source p_action_id p_meta d
           = Inr (d, Already_processed)
         \<and> award_success Already_processed
         \<and> xp_awarded Already_processed = Some 0"
  using assms by (simp add: award_xp_def)

theorem award_xp_replay_before_user_check_witness:
  "ledger_has ''a1'' (xp_ledger test_db_awarded)
   \<and> find_user (Some 7) (users test_db_awarded) = None
   \<and> award_xp (Some 7) 50400000000 50 ''test_challenge'' ''a1'' ''{}'' test_db_awarded
       = Inr (test_db_awarded, Already_processed)
   \<and> award_xp None 50400000000 50 ''test_challenge'' ''a1'' ''{}'' test_db_awarded
       = Inr (test_db_awarded, Already_processed)"
proof -
  have h: "ledger_has ''a1'' (xp_ledger test_db_awarded)"
    by (simp add: ledger_has_def test_db_awarded_def)
  have n: "find_user (Some 7) (users test_db_awarded) = None"
    by (simp add: find_user_def test_db_awarded_def new_user_def)
  from award_xp_replay_before_user_check [OF h, of "Some 7" 50400000000 50 "''test_challenge''" "''{}''"]
       award_xp_replay_before_user_check [OF h, of None 50400000000 50 "''test_challenge''" "''{}''"]
       h n
  show ?thesis by simp
qed

section \<open>Properties of \<^verbatim>\<open>redeem_grace_pass\<close>\<close>

lemma grace_redeem_eval:
  "redeem_grace_pass (Some 1) 43200000000 ''tok1'' grace_db = Inr (grace_db_redeemed, Redeemed 1)"
  by (simp add: redeem_grace_pass_def grace_db_def grace_db_redeemed_def db_of_users_def
        new_user_def action_processed_def find_user_def int4_def int4_ok_def bind_exc_def
        update_users_def mark_processed_def)

lemma action_processed_mark_processed:
  "action_processed aid (mark_processed uid aid oas)"
proof (cases "\<exists>a \<in> set oas. oa_action_id a = aid")
  case True
  then obtain a where "a \<in> set oas" "oa_action_id a = aid" by blast
  then have "a\<lparr>processed := True\<rparr> \<in> set (mark_processed uid aid oas)"
    using True by (force simp: mark_processed_def)
  moreover have "oa_action_id (a\<lparr>processed := True\<rparr>) = aid \<and> processed (a\<lparr>processed := True\<rparr>)"
    using \<open>oa_action_id a = aid\<close> by simp
  ultimately show ?thesis
    unfolding action_processed_def by blast
next
  case False
  then show ?thesis by (simp add: action_processed_def mark_processed_def)
qed

lemma redeem_grace_pass_Inr_cases:
  assumes "redeem_grace_pass v_user_id v_now aid d = Inr (d', r)"
  obtains (replay) "action_processed aid (offline_actions d)" "d' = d" "r = Grace_already_processed"
        | (no_user) "\<not> action_processed aid (offline_actions d)"
                    "find_user v_user_id (users d) = None" "d' = d" "r = Grace_user_not_found"
        | (no_pass) u where "\<not> action_processed aid (offline_actions d)"
                    "find_user v_user_id (users d) = Some u" "grace_passes_available u \<le> 0"
                    "d' = d" "r = No_grace_passes_available"
        | (redeemed) u where "\<not> action_processed aid (offline_actions d)"
                    "find_user v_user_id (users d) = Some u" "grace_passes_available u > 0"
                    "int4_ok (grace_passes_used u + 1)"
                    "d' = d\<lparr>users := update_users v_now (user_id u)
                               (\<lambda>x. x\<lparr>grace_passes_used := grace_passes_used x + 1,
                                       grace_passes_available := grace_passes_available x - 1,
                                       streak := (if streak x > 0 then streak x else 1)\<rparr>)
                               (users d),
                             offline_actions := mark_processed (user_id u) aid (offline_actions d)\<rparr>"
                    "r = Redeemed (grace_passes_available u - 1)"
  using assms
  by (auto simp: redeem_grace_pass_def bind_exc_eq_Inr int4_eq_Inr Let_def
           split: if_splits option.splits)

text \<open>
  Claim C8. For a new action id and a user with a record, \<^verbatim>\<open>redeem_grace_pass\<close> fails with
  "No grace passes available" when \<^verbatim>\<open>grace_passes_available <= 0\<close> and changes nothing. When it
  succeeds, \<^verbatim>\<open>grace_passes_used\<close> is one more, \<^verbatim>\<open>grace_passes_available\<close> one less, a streak
  of 0 becomes 1 and a positive streak stays; a replay of the same action id then succeeds as
  "already processed" and leaves the database as it is. In the scenario, the user has two
  passes and streak 0: redeeming \<^verbatim>\<open>tok1\<close> leaves one pass and streak 1, and repeating
  \<^verbatim>\<open>tok1\<close> changes nothing.
\<close>

theorem redeem_grace_pass_contract:
  "(\<not> action_processed aid (offline_actions d) \<and> find_user v_user_id (users d) = Some u
      \<and> grace_passes_available u \<le> 0
     \<longrightarrow> redeem_grace_pass v_user_id v_now aid d = Inr (d, No_grace_passes_available)
         \<and> \<not> grace_success No_grace_passes_available)
   \<and> (redeem_grace_pass v_user_id v_now aid d = Inr (d1, Redeemed n)
     \<longrightarrow> (\<exists>u0 u1. find_user v_user_id (users d) = Some u0
              \<and> find_user v_user_id (users d1) = Some u1
              \<and> grace_passes_used u1 = grace_passes_used u0 + 1
              \<and> grace_passes_available u1 = grace_passes_available u0 - 1
              \<and> n = grace_passes_available u0 - 1
              \<and> streak u1 = (if streak u0 > 0 then streak u0 else 1))
         \<and> grace_success (Redeemed n)
         \<and> redeem_grace_pass v_user_id v_now' aid d1 = Inr (d1, Grace_already_processed)
         \<and> grace_success Grace_already_processed)
   \<and> redeem_grace_pass (Some 1) 43200000000 ''tok1'' grace_db = Inr (grace_db_redeemed, Redeemed 1)
   \<and> map grace_passes_available (users grace_db) = [2] \<and> map streak (users grace_db) = [0]
   \<and> map grace_passes_available (users grace_db_redeemed) = [1]
   \<and> map streak (users grace_db_redeemed) = [1]
   \<and> redeem_grace_pass (Some 1) 50400000000 ''tok1'' grace_db_redeemed
        = Inr (grace_db_redeemed, Grace_already_processed)"
proof -
  have fail: "redeem_grace_pass v_user_id v_now aid d = Inr (d, No_grace_passes_available)"
    if "\<not> action_processed aid (offline_actions d)" "find_user v_user_id (users d) = Some u"
       "grace_passes_available u \<le> 0"
    using that by (simp add: redeem_grace_pass_def)
  have ok: "(\<exists>u0 u1. find_user v_user_id (users d) = Some u0
              \<and> find_user v_user_id (users d1) = Some u1
              \<and> grace_passes_used u1 = grace_passes_used u0 + 1
              \<and> grace_passes_available u1 = grace_passes_available u0 - 1
              \<and> n = grace_passes_available u0 - 1
              \<and> streak u1 = (if streak u0 > 0 then streak u0 else 1))
         \<and> redeem_grace_pass v_user_id v_now' aid d1 = Inr (d1, Grace_already_processed)"
    if r: "redeem_grace_pass v_user_id v_now aid d = Inr (d1, Redeemed n)"
    using r
  proof (cases rule: redeem_grace_pass_Inr_cases)
    case (redeemed u0)
    let ?f = "\<lambda>x. x\<lparr>grace_passes_used := grace_passes_used x + 1,
                     grace_passes_available := grace_passes_available x - 1,
                     streak := (if streak x > 0 then streak x else 1)\<rparr>"
    have "find_user v_user_id (users d1) = Some ((?f u0)\<lparr>updated_at := v_now\<rparr>)"
      using find_user_update_users [OF redeemed(2), of ?f v_now] redeemed(5) by simp
    moreover have "action_processed aid (offline_actions d1)"
      using redeemed(5) by (simp add: action_processed_mark_processed)
    then have "redeem_grace_pass v_user_id v_now' aid d1 = Inr (d1, Grace_already_processed)"
      by (simp add: redeem_grace_pass_def)
    ultimately show ?thesis using redeemed(2,6) by simp
  qed simp_all
  have replay: "redeem_grace_pass (Some 1) 50400000000 ''tok1'' grace_db_redeemed
        = Inr (grace_db_redeemed, Grace_already_processed)"
    by (simp add: redeem_grace_pass_def grace_db_redeemed_def action_processed_def)
  have vals: "map grace_passes_available (users grace_db) = [2] \<and> map streak (users grace_db) = [0]
   \<and> map grace_passes_available (users grace_db_redeemed) = [1]
   \<and> map streak (users grace_db_redeemed) = [1]"
    by (simp add: grace_db_def grace_db_redeemed_def db_of_users_def new_user_def)
  show ?thesis
    using fail ok grace_redeem_eval replay vals by simp
qed

theorem redeem_grace_pass_contract_witness:
  "redeem_grace_pass (Some 2) 43200000000 ''tok2'' no_pass_db
       = Inr (no_pass_db, No_grace_passes_available)
   \<and> (\<exists>u0 u1. find_user (Some 1) (users grace_db) = Some u0
              \<and> find_user (Some 1) (users grace_db_redeemed) = Some u1
              \<and> grace_passes_used u1 = grace_passes_used u0 + 1
              \<and> grace_passes_available u1 = grace_passes_available u0 - 1
              \<and> streak u0 = 0 \<and> streak u1 = 1)
   \<and> redeem_grace_pass (Some 1) 50400000000 ''tok1'' grace_db_redeemed
        = Inr (grace_db_redeemed, Grace_already_processed)"
proof -
  let ?u = "(new_user 2 1 0 0)\<lparr>grace_passes_available := 0\<rparr>"
  have h1: "\<not> action_processed ''tok2'' (offline_actions no_pass_db)
            \<and> find_user (Some 2) (users no_pass_db) = Some ?u \<and> grace_passes_available ?u \<le> 0"
    by (simp add: action_processed_def no_pass_db_def db_of_users_def find_user_def new_user_def)
  have s0: "find_user (Some 1) (users grace_db) = Some ((new_user 1 1 0 0)\<lparr>grace_passes_available := 2\<rparr>)"
    by (simp add: grace_db_def db_of_users_def find_user_def new_user_def)
  have c1: "redeem_grace_pass (Some 2) 43200000000 ''tok2'' no_pass_db
       = Inr (no_pass_db, No_grace_passes_available)"
    using redeem_grace_pass_contract [of "''tok2''" no_pass_db "Some 2" ?u 43200000000] h1
    by blast
  have c2: "(\<exists>u0 u1. find_user (Some 1) (users grace_db) = Some u0
              \<and> find_user (Some 1) (users grace_db_redeemed) = Some u1
              \<and> grace_passes_used u1 = grace_passes_used u0 + 1
              \<and> grace_passes_available u1 = grace_passes_available u0 - 1
              \<and> 1 = grace_passes_available u0 - 1
              \<and> streak u1 = (if streak u0 > 0 then streak u0 else 1))
         \<and> redeem_grace_pass (Some 1) 50400000000 ''tok1'' grace_db_redeemed
              = Inr (grace_db_redeemed, Grace_already_processed)"
    using redeem_grace_pass_contract [of "''tok1''" grace_db "Some 1" _ 43200000000
                                         grace_db_redeemed 1 50400000000] grace_redeem_eval
    by blast
  then obtain u0 u1 where u: "find_user (Some 1) (users grace_db) = Some u0"
      "find_user (Some 1) (users grace_db_redeemed) = Some u1"
      "grace_passes_used u1 = grace_passes_used u0 + 1"
      "grace_passes_available u1 = grace_passes_available u0 - 1"
      "streak u1 = (if streak u0 > 0 then streak u0 else 1)"
    by blast
  from u(1) s0 have "streak u0 = 0" by (auto simp: new_user_def)
  with u have "\<exists>u0 u1. find_user (Some 1) (users grace_db) = Some u0
              \<and> find_user (Some 1) (users grace_db_redeemed) = Some u1
              \<and> grace_passes_used u1 = grace_passes_used u0 + 1
              \<and> grace_passes_available u1 = grace_passes_available u0 - 1
              \<and> streak u0 = 0 \<and> streak u1 = 1"
    by auto
  with c1 c2 show ?thesis by blast
qed

section \<open>Properties of \<^verbatim>\<open>updateStreak\<close>\<close>








section \<open>Properties of \<^verbatim>\<open>gift_booster\<close>\<close>

text \<open>
  Claim C7 asks that a second \<^verbatim>\<open>gift_booster\<close> call with the same arguments creates no
  second booster. The function does not do that: its idempotency check compares the action id
  with the text of \<^verbatim>\<open>created_at\<close>, and no row stores the action id. Whenever the action id is
  not the text of the time of the first call, a valid gift that is repeated, at any time,
  succeeds twice and leaves two boosters.
\<close>

theorem gift_booster_replay_duplicates:
  assumes "\<not> gift_seen timestamptz_text p_to_user_id aid (boosters d)"
      and "timestamptz_text v_now \<noteq> aid"
      and "v_duration t = Some h"
      and "references_user (Some p_to_user_id) (users d)"
      and "references_user v_from_user_id (users d)"
  shows "\<exists>d1 d2.
           gift_booster timestamptz_text v_from_user_id v_now p_to_user_id t aid d
             = Inr (d1, Gifted (v_now + h * 3600000000))
         \<and> gift_booster timestamptz_text v_from_user_id v_now' p_to_user_id t aid d1
             = Inr (d2, Gifted (v_now' + h * 3600000000))
         \<and> gift_success (Gifted (v_now' + h * 3600000000))
         \<and> boosters d2 = boosters d @
             [\<lparr>booster_user_id = p_to_user_id, booster_type = t,
               expires_at = v_now + h * 3600000000, is_active = True, created_at = v_now\<rparr>,
              \<lparr>booster_user_id = p_to_user_id, booster_type = t,
               expires_at = v_now' + h * 3600000000, is_active = True, created_at = v_now'\<rparr>]"
proof -
  let ?b1 = "\<lparr>booster_user_id = p_to_user_id, booster_type = t,
               expires_at = v_now + h * 3600000000, is_active = True, created_at = v_now\<rparr>"
  let ?a = "\<lparr>activity_user_id = v_from_user_id, activity_type = ''booster_gifted'',
             activity_meta = Booster_gift p_to_user_id t\<rparr>"
  let ?d1 = "d\<lparr>boosters := boosters d @ [?b1], activities := activities d @ [?a]\<rparr>"
  have c1: "gift_booster timestamptz_text v_from_user_id v_now p_to_user_id t aid d
             = Inr (?d1, Gifted (v_now + h * 3600000000))"
    using assms by (simp add: gift_booster_def Let_def)
  have ns: "\<not> gift_seen timestamptz_text p_to_user_id aid (boosters ?d1)"
    using assms(1,2) by (simp add: gift_seen_def)
  have c2: "gift_booster timestamptz_text v_from_user_id v_now' p_to_user_id t aid ?d1
             = Inr (?d1\<lparr>boosters := boosters ?d1 @
                      [\<lparr>booster_user_id = p_to_user_id, booster_type = t,
                        expires_at = v_now' + h * 3600000000, is_active = True,
                        created_at = v_now'\<rparr>],
                     activities := activities ?d1 @ [?a]\<rparr>, Gifted (v_now' + h * 3600000000))"
    using ns assms(3,4,5) by (simp add: gift_booster_def Let_def)
  from c1 c2 show ?thesis by simp
qed

theorem gift_booster_replay_duplicates_witness:
  "\<exists>d1 d2.
      gift_booster example_text (Some 1) 43200000000 2 ''2x'' ''gift_1_abc'' gift_db
        = Inr (d1, Gifted 50400000000)
    \<and> gift_booster example_text (Some 1) 50400000000 2 ''2x'' ''gift_1_abc'' d1
        = Inr (d2, Gifted 57600000000)
    \<and> boosters gift_db = []
    \<and> map booster_user_id (boosters d2) = [2, 2]"
proof -
  have h1: "\<not> gift_seen example_text 2 ''gift_1_abc'' (boosters gift_db)"
    by (simp add: gift_seen_def gift_db_def db_of_users_def)
  have h2: "example_text 43200000000 \<noteq> ''gift_1_abc''" by (simp add: example_text_def)
  have h3: "v_duration ''2x'' = Some 2" by (simp add: v_duration_def)
  have h4: "references_user (Some 2) (users gift_db)"
    by (simp add: references_user_def gift_db_def db_of_users_def new_user_def)
  have h5: "references_user (Some 1) (users gift_db)"
    by (simp add: references_user_def gift_db_def db_of_users_def new_user_def)
  have e: "boosters gift_db = []" by (simp add: gift_db_def db_of_users_def)
  from gift_booster_replay_duplicates [OF h1 h2 h3 h4 h5, of 50400000000] e
  show ?thesis by fastforce
qed

section \<open>Properties of \<^verbatim>\<open>get_leaderboard\<close>\<close>

lemma sorted_by_league:
  assumes "sorted (map k us)" and "\<And>u. fst (k u) = - league u"
      and "i < length us" and "j < length us" and "league (us ! i) > league (us ! j)"
  shows "i < j"
proof (rule ccontr)
  assume "\<not> i < j"
  then have "j \<le> i" by simp
  with assms(1,3) have "map k us ! j \<le> map k us ! i"
    by (simp add: sorted_iff_nth_mono)
  with assms(3,4) have "k (us ! j) \<le> k (us ! i)" by simp
  then have "fst (k (us ! j)) \<le> fst (k (us ! i))"
    by (cases "k (us ! j)"; cases "k (us ! i)") (auto simp: less_eq_prod_simp)
  with assms(2,5) show False by simp
qed

lemma get_leaderboard_all:
  "get_leaderboard None tf d = map leaderboard_row_of (enumerate 1 (ordered_users tf (users d)))"
  by (simp add: get_leaderboard_def)

lemma ordered_users_by_league:
  assumes "i < length (ordered_users tf us)" and "j < length (ordered_users tf us)"
      and "league (ordered_users tf us ! i) > league (ordered_users tf us ! j)"
  shows "i < j"
proof (cases "tf = ''weekly''")
  case True
  then have o: "ordered_users tf us = sort_key weekly_key us" by (simp add: ordered_users_def)
  show ?thesis
    using sorted_by_league [of weekly_key "sort_key weekly_key us" i j] assms
    unfolding o by (simp add: weekly_key_def)
next
  case False
  then have o: "ordered_users tf us = sort_key lifetime_key us" by (simp add: ordered_users_def)
  show ?thesis
    using sorted_by_league [of lifetime_key "sort_key lifetime_key us" i j] assms
    unfolding o by (simp add: lifetime_key_def)
qed

lemma set_ordered_users [simp]: "set (ordered_users tf us) = set us"
  by (simp add: ordered_users_def)

lemma length_ordered_users [simp]: "length (ordered_users tf us) = length us"
  by (simp add: ordered_users_def)

lemma get_leaderboard_nth:
  assumes "n < length (users d)"
  shows "get_leaderboard None tf d ! n = leaderboard_row_of (n + 1, ordered_users tf (users d) ! n)"
  using assms by (simp add: get_leaderboard_all nth_enumerate_eq)

text \<open>
  Claim C2. Without a league filter, and for the weekly timeframe as for any other (monthly),
  \<^verbatim>\<open>get_leaderboard\<close> returns one row per user, and for any two users \<open>A\<close> and \<open>B\<close> with
  \<open>league A > league B\<close> the row of \<open>A\<close> comes strictly before the row of \<open>B\<close>, with a strictly
  smaller rank, whatever their weekly or lifetime XP.
\<close>

theorem get_leaderboard_league_first:
  "(\<forall>A \<in> set (users d). \<forall>B \<in> set (users d). league A > league B \<longrightarrow>
      (\<exists>i j. i < j \<and> j < length (get_leaderboard None tf d)
           \<and> get_leaderboard None tf d ! i = leaderboard_row_of (i + 1, A)
           \<and> get_leaderboard None tf d ! j = leaderboard_row_of (j + 1, B)))
   \<and> (\<forall>a \<in> set (get_leaderboard None tf d). \<forall>b \<in> set (get_leaderboard None tf d).
        lb_league a > lb_league b \<longrightarrow> lb_rank a < lb_rank b)
   \<and> length (get_leaderboard None tf d) = length (users d)"
proof (intro conjI ballI impI)
  let ?o = "ordered_users tf (users d)"
  let ?lb = "get_leaderboard None tf d"
  show len: "length ?lb = length (users d)"
    by (simp add: get_leaderboard_all)
  {
    fix A B assume A: "A \<in> set (users d)" and B: "B \<in> set (users d)" and lg: "league A > league B"
    from A obtain i where i: "i < length ?o" "?o ! i = A"
      by (metis in_set_conv_nth set_ordered_users)
    from B obtain j where j: "j < length ?o" "?o ! j = B"
      by (metis in_set_conv_nth set_ordered_users)
    have "i < j" using ordered_users_by_league [of i tf "users d" j] i j lg by simp
    moreover have "?lb ! i = leaderboard_row_of (i + 1, A)" and "?lb ! j = leaderboard_row_of (j + 1, B)"
      using i j by (simp_all add: get_leaderboard_nth)
    ultimately show "\<exists>i j. i < j \<and> j < length ?lb \<and> ?lb ! i = leaderboard_row_of (i + 1, A)
           \<and> ?lb ! j = leaderboard_row_of (j + 1, B)"
      using j(1) len by auto
  }
  {
    fix a b assume a: "a \<in> set ?lb" and b: "b \<in> set ?lb" and lg: "lb_league a > lb_league b"
    from a obtain i where i: "i < length ?lb" "?lb ! i = a" by (metis in_set_conv_nth)
    from b obtain j where j: "j < length ?lb" "?lb ! j = b" by (metis in_set_conv_nth)
    have ra: "a = leaderboard_row_of (i + 1, ?o ! i)" and rb: "b = leaderboard_row_of (j + 1, ?o ! j)"
      using i j len by (simp_all add: get_leaderboard_nth)
    then have "league (?o ! i) > league (?o ! j)"
      using lg by (simp add: leaderboard_row_of_def)
    then have "i < j" using ordered_users_by_league [of i tf "users d" j] i j len by simp
    then show "lb_rank a < lb_rank b"
      by (simp add: ra rb leaderboard_row_of_def)
  }
qed

theorem get_leaderboard_league_first_witness:
  "(\<exists>i j. i < j \<and> j < length (get_leaderboard None ''weekly'' board_db)
        \<and> get_leaderboard None ''weekly'' board_db ! i = leaderboard_row_of (i + 1, new_user 4 4 200 5000)
        \<and> get_leaderboard None ''weekly'' board_db ! j = leaderboard_row_of (j + 1, new_user 1 1 800 1000))
   \<and> (\<exists>i j. i < j \<and> j < length (get_leaderboard None ''monthly'' board_db)
        \<and> get_leaderboard None ''monthly'' board_db ! i = leaderboard_row_of (i + 1, new_user 4 4 200 5000)
        \<and> get_leaderboard None ''monthly'' board_db ! j = leaderboard_row_of (j + 1, new_user 1 1 800 1000))"
proof -
  have A: "new_user 4 4 200 5000 \<in> set (users board_db)"
   and B: "new_user 1 1 800 1000 \<in> set (users board_db)"
    by (simp_all add: board_db_def db_of_users_def)
  have l: "league (new_user 4 4 200 5000) > league (new_user 1 1 800 1000)"
    by (simp add: new_user_def)
  from get_leaderboard_league_first [of board_db "''weekly''"]
       get_leaderboard_league_first [of board_db "''monthly''"] A B l
  show ?thesis by blast
qed

section \<open>Properties of \<^verbatim>\<open>run_weekly_league_update\<close>\<close>

subsection \<open>One pass, row by row\<close>



lemma walk_row_id [simp]: "user_id (walk_row v_now l ms c r u) = user_id u"
  by (induction ms arbitrary: c r u) simp_all







lemma league_step_row_id [simp]: "user_id (league_step_row v_now l us r u) = user_id u"
  by (simp add: league_step_row_def)



subsection \<open>The rank of a top member does not depend on the rows reset before\<close>






subsection \<open>The four passes\<close>









subsection \<open>The position in the query is the rank\<close>




subsection \<open>Promotion\<close>



text \<open>
  Claim C5 asks that a relegated member moves down one tier. The outer loop queries each
  league after the leagues above it have been rewritten, so a member relegated from league
  \<open>l + 1\<close> is selected again in the pass over league \<open>l\<close>, now with weekly XP 0. With six Diamond
  and fifteen Gold members, the sixth Diamond member is relegated to Gold (position 6 exceeds
  10 - 5), is then the sixteenth of the Gold pass (16 exceeds 20 - 5) and is relegated again to
  Silver: two tiers in one run, with three entries in the rankings.
\<close>

theorem weekly_update_relegates_two_tiers:
  "map (\<lambda>u. (user_id u, league u, weekly_xp u)) (users cascade_db)
     = [(1, 4, 600), (2, 4, 500), (3, 4, 400), (4, 4, 300), (5, 4, 200), (6, 4, 100),
        (7, 3, 393), (8, 3, 392), (9, 3, 391), (10, 3, 390), (11, 3, 389), (12, 3, 388),
        (13, 3, 387), (14, 3, 386), (15, 3, 385), (16, 3, 384), (17, 3, 383), (18, 3, 382),
        (19, 3, 381), (20, 3, 380), (21, 3, 379)]
   \<and> map (\<lambda>u. (user_id u, league u))
        (users (fst (run_weekly_league_update 0 0 cascade_db)))
     = [(1, 4), (2, 4), (3, 4), (4, 4), (5, 4), (6, 2),
        (7, 3), (8, 3), (9, 3), (10, 3), (11, 3), (12, 3), (13, 3), (14, 3), (15, 3),
        (16, 3), (17, 3), (18, 3), (19, 3), (20, 3), (21, 3)]
   \<and> map (\<lambda>r. (old_league r, new_league r, rk_rank r))
        (filter (\<lambda>r. rk_user_id r = 6) (rankings (snd (run_weekly_league_update 0 0 cascade_db))))
     = [(4, 3, 6), (3, 2, 22), (2, 2, 23)]"
  by code_simp

end
